theory Spec2Isabelle
  imports Main "HOL-Library.Word" "HOL-Library.Signed_Division"
begin

unbundle bit_operations_syntax

section \<open>Data model of the session controller (llama\_jni.cpp)\<close>

text \<open>
  The C++ \<open>int\<close>, \<open>llama_pos\<close> and \<open>llama_token\<close> values are modelled as \<open>int\<close>:
  positions and counts are bounded by the prompt length and the context size, far
  from the 32-bit limits. The one computation on unchecked caller input (the prompt
  bound \<open>g_context_size - maxTokens - 4\<close>) and its conversion to \<open>size_t\<close> are written
  out with their 32-bit and 64-bit wrap-around. Bytes of generated text are \<open>8 word\<close>.
\<close>

type_synonym llama_token = int
type_synonym llama_pos = int
type_synonym byte = "8 word"

text \<open>One entry of a \<open>llama_batch\<close>, as \<open>common_batch_add\<close> writes it.\<close>

record batch_entry =
  token :: llama_token
  pos :: llama_pos
  seq_id :: "int list"
  logits :: bool

type_synonym llama_batch = "batch_entry list"

text \<open>
  The context memory of sequence 0 (the only sequence the controller uses): the cells
  written by successful decode calls, each a position and the token stored there.
\<close>

type_synonym kv_cells = "(llama_pos \<times> llama_token) list"

text \<open>
  The calls the controller makes into its external collaborators (model, sampler,
  stream consumer), in the order it makes them. \<open>Decode b ok\<close> is a \<open>llama_decode\<close> of
  batch \<open>b\<close> that returned 0 iff \<open>ok\<close>; \<open>On_token c threw\<close> is a delivery of chunk \<open>c\<close> to
  the consumer's \<open>onToken\<close>, which raised a Java exception iff \<open>threw\<close>.
\<close>

datatype call =
    Memory_clear
  | Memory_seq_rm llama_pos llama_pos
  | Memory_seq_add llama_pos llama_pos int
  | Decode llama_batch bool
  | Sampler_sample llama_token
  | On_token "byte list" bool

text \<open>
  The global state of the translation unit. \<open>g_model\<close> and \<open>g_context\<close> record whether
  the pointer is non-null; \<open>kv\<close> is the memory owned by \<open>g_context\<close>; \<open>calls\<close> is the
  log of external calls made so far; \<open>jni_exception\<close> is the pending-exception flag of
  the JNI environment.
\<close>

record session =
  g_model :: bool
  g_context :: bool
  g_context_size :: int
  g_batch_size :: int
  g_chat_msgs :: "string list"
  g_system_pos :: llama_pos
  g_current_pos :: llama_pos
  g_stop_pos :: llama_pos
  g_cached_chars :: "byte list"
  g_assistant_ss :: "byte list"
  g_batch :: llama_batch
  kv :: kv_cells
  calls :: "call list"
  jni_exception :: bool

definition log_call :: "call \<Rightarrow> session \<Rightarrow> session" where
  "log_call c s = s\<lparr>calls := calls s @ [c]\<rparr>"

section \<open>Context memory\<close>

text \<open>
  Modelled from the spec: \<open>llama_memory_seq_rm\<close> and \<open>llama_memory_seq_add\<close> belong to
  the model library, which is not part of the sources. The first "logically removes
  positions \<open>[p0, p1)\<close>", the second "shifts all positions in \<open>[p0, p1)\<close>" by \<open>delta\<close>.
\<close>

definition llama_memory_seq_rm :: "kv_cells \<Rightarrow> llama_pos \<Rightarrow> llama_pos \<Rightarrow> kv_cells" where
  "llama_memory_seq_rm m p0 p1 = filter (\<lambda>c. \<not> (p0 \<le> fst c \<and> fst c < p1)) m"

definition llama_memory_seq_add :: "kv_cells \<Rightarrow> llama_pos \<Rightarrow> llama_pos \<Rightarrow> int \<Rightarrow> kv_cells" where
  "llama_memory_seq_add m p0 p1 delta =
     map (\<lambda>c. if p0 \<le> fst c \<and> fst c < p1 then (fst c + delta, snd c) else c) m"

text \<open>\<open>reset_chat_state\<close> and \<open>reset_gen_state\<close> (lines 45-57).\<close>

definition reset_chat_state :: "bool \<Rightarrow> session \<Rightarrow> session" where
  "reset_chat_state clear_kv s =
     (let s1 = s\<lparr>g_chat_msgs := [], g_system_pos := 0, g_current_pos := 0\<rparr>
      in if clear_kv \<and> g_context s1 then log_call Memory_clear (s1\<lparr>kv := []\<rparr>) else s1)"

definition reset_gen_state :: "session \<Rightarrow> session" where
  "reset_gen_state s = s\<lparr>g_stop_pos := 0, g_cached_chars := [], g_assistant_ss := []\<rparr>"

text \<open>
  \<open>shift_context\<close> (lines 59-65). The C++ division truncates towards zero, which is
  \<open>sdiv\<close>.
\<close>

definition shift_context :: "session \<Rightarrow> session" where
  "shift_context s =
     (let n_discard = (g_current_pos s - g_system_pos s) sdiv 2;
          s1 = log_call (Memory_seq_rm (g_system_pos s) (g_system_pos s + n_discard))
                 (s\<lparr>kv := llama_memory_seq_rm (kv s) (g_system_pos s) (g_system_pos s + n_discard)\<rparr>);
          s2 = log_call (Memory_seq_add (g_system_pos s + n_discard) (g_current_pos s) (- n_discard))
                 (s1\<lparr>kv := llama_memory_seq_add (kv s1) (g_system_pos s + n_discard)
                               (g_current_pos s) (- n_discard)\<rparr>)
      in s2\<lparr>g_current_pos := g_current_pos s2 - n_discard\<rparr>)"

section \<open>External collaborators\<close>

text \<open>
  The tokenizer, the model's forward pass, the sampler, the vocabulary and the stream
  consumer are outside the controller. They are parameters of the model: the results
  of \<open>llama_decode\<close>, of the sampler and of the consumer may depend on everything that
  happened before, which is the call log. \<open>llama_decode\<close> gives \<open>True\<close> for return code 0.
  The sampler's parameters (floating point) do not influence the control flow and are
  not modelled.
\<close>

record env =
  common_tokenize :: "string \<Rightarrow> bool \<Rightarrow> bool \<Rightarrow> llama_token list"
  common_chat_templates_was_explicit :: bool
  llama_decode :: "call list \<Rightarrow> llama_batch \<Rightarrow> bool"
  common_sampler_sample :: "call list \<Rightarrow> llama_token"
  llama_vocab_is_eog :: "llama_token \<Rightarrow> bool"
  common_token_to_piece :: "llama_token \<Rightarrow> byte list"
  has_onToken :: bool
  onToken_throws :: "call list \<Rightarrow> byte list \<Rightarrow> bool"

definition common_batch_clear :: "session \<Rightarrow> session" where
  "common_batch_clear s = s\<lparr>g_batch := []\<rparr>"

definition common_batch_add ::
  "llama_token \<Rightarrow> llama_pos \<Rightarrow> int list \<Rightarrow> bool \<Rightarrow> session \<Rightarrow> session" where
  "common_batch_add t p ids lg s =
     s\<lparr>g_batch := g_batch s @ [\<lparr>token = t, pos = p, seq_id = ids, logits = lg\<rparr>]\<rparr>"

text \<open>
  A call of \<open>llama_decode(ctx, g_batch)\<close>: the result comes from the environment; a
  successful call stores the batch's tokens at their positions in the context memory,
  as the model library does.
\<close>

definition decode :: "env \<Rightarrow> session \<Rightarrow> bool \<times> session" where
  "decode E s =
     (let ok = llama_decode E (calls s) (g_batch s);
          s1 = (if ok then s\<lparr>kv := kv s @ map (\<lambda>e. (pos e, token e)) (g_batch s)\<rparr> else s)
      in (ok, log_call (Decode (g_batch s) ok) s1))"

section \<open>Batched prompt submission\<close>

text \<open>
  The body of the loop of \<open>decode_batched\<close> (lines 73-88) for the chunk starting at
  index \<open>i\<close>; the flag is \<open>True\<close> when \<open>llama_decode\<close> succeeded.
\<close>

definition decode_chunk ::
  "env \<Rightarrow> llama_token list \<Rightarrow> llama_pos \<Rightarrow> bool \<Rightarrow> int \<Rightarrow> session \<Rightarrow> bool \<times> session" where
  "decode_chunk E tokens start logit_last i s =
     (let cur = min (int (length tokens) - i) (g_batch_size s);
          s1 = common_batch_clear s;
          s2 = (if start + i + cur \<ge> g_context_size s1 - 4 then shift_context s1 else s1);
          s3 = foldl (\<lambda>s' j. common_batch_add (tokens ! nat (i + j)) (start + i + j) [0]
                                 (logit_last \<and> i + j = int (length tokens) - 1) s')
                     s2 [0 .. cur - 1]
      in decode E s3)"

text \<open>
  \<open>decode_batched\<close> (lines 67-91), from loop index \<open>i\<close>. The loop need not end when
  \<open>g_batch_size\<close> is not positive, so the result is optional: \<open>None\<close> is a loop that
  runs forever.
\<close>

partial_function (option) decode_loop ::
  "env \<Rightarrow> llama_token list \<Rightarrow> llama_pos \<Rightarrow> bool \<Rightarrow> int \<Rightarrow> session \<Rightarrow> (int \<times> session) option" where
  "decode_loop E tokens start logit_last i s =
     (if i < int (length tokens) then
        (if \<not> fst (decode_chunk E tokens start logit_last i s)
         then Some (1, snd (decode_chunk E tokens start logit_last i s))
         else decode_loop E tokens start logit_last
                (i + g_batch_size (snd (decode_chunk E tokens start logit_last i s)))
                (snd (decode_chunk E tokens start logit_last i s)))
      else Some (0, s))"

declare decode_loop.simps [code]

definition decode_batched ::
  "env \<Rightarrow> llama_token list \<Rightarrow> llama_pos \<Rightarrow> bool \<Rightarrow> session \<Rightarrow> (int \<times> session) option" where
  "decode_batched E tokens start logit_last s = decode_loop E tokens start logit_last 0 s"

section \<open>UTF-8 validation\<close>

text \<open>
  \<open>is_valid_utf8\<close> (lines 93-110) reads a C string. \<open>utf8_len\<close> is the classification of
  a lead byte (lines 98-102). \<open>utf8_scan k bs\<close> is the scan with \<open>k\<close> iterations of the
  inner loop (line 104) still to run; the end of the list is the terminating NUL, and
  a NUL inside the bytes of a \<open>std::string\<close> ends the C string in the same way.
\<close>

definition utf8_len :: "byte \<Rightarrow> nat option" where
  "utf8_len b =
     (if b AND 0x80 = 0x00 then Some 1
      else if b AND 0xE0 = 0xC0 then Some 2
      else if b AND 0xF0 = 0xE0 then Some 3
      else if b AND 0xF8 = 0xF0 then Some 4
      else None)"

fun utf8_scan :: "nat \<Rightarrow> byte list \<Rightarrow> bool" where
  "utf8_scan 0 [] = True"
| "utf8_scan (Suc k) [] = False"
| "utf8_scan 0 (b # bs) =
     (if b = 0 then True
      else (case utf8_len b of None \<Rightarrow> False | Some n \<Rightarrow> utf8_scan (n - 1) bs))"
| "utf8_scan (Suc k) (b # bs) = (if b AND 0xC0 \<noteq> 0x80 then False else utf8_scan k bs)"

definition is_valid_utf8 :: "byte list \<Rightarrow> bool" where
  "is_valid_utf8 s = utf8_scan 0 s"

text \<open>\<open>c_str\<close>: what a reader of the C string of a \<open>std::string\<close> sees.\<close>

definition c_str :: "byte list \<Rightarrow> byte list" where
  "c_str s = takeWhile (\<lambda>b. b \<noteq> 0) s"

text \<open>
  The trimming of the synchronous result (lines 277-285): on an invalid string, pop
  the trailing continuation bytes, then one byte with the high bit set.
\<close>

definition trim_trailing_utf8 :: "byte list \<Rightarrow> byte list" where
  "trim_trailing_utf8 output =
     (if \<not> is_valid_utf8 output then
        (let o1 = rev (dropWhile (\<lambda>b. b AND 0xC0 = 0x80) (rev output))
         in if o1 \<noteq> [] \<and> last o1 AND 0x80 \<noteq> 0 then butlast o1 else o1)
      else output)"


section \<open>Prompt truncation\<close>

text \<open>
  \<open>wrap32\<close> is the value of a C++ \<open>int\<close> after 32-bit two's-complement wrap-around,
  \<open>to_size_t\<close> the conversion of an \<open>int\<close> to the 64-bit \<open>size_t\<close>.
  \<open>std::vector::resize\<close> throws \<open>std::length_error\<close> above \<open>max_size()\<close>, which for
  4-byte elements is below \<open>2 ^ 62\<close>; otherwise it cuts the vector or pads it with zeros.
\<close>

datatype exn = Length_error

definition wrap32 :: "int \<Rightarrow> int" where
  "wrap32 k = signed_take_bit 31 k"

definition to_size_t :: "int \<Rightarrow> nat" where
  "to_size_t k = nat (k mod 2 ^ 64)"

definition vector_max_size :: nat where
  "vector_max_size = 2 ^ 62 - 1"

definition vector_resize :: "nat \<Rightarrow> llama_token list \<Rightarrow> exn + llama_token list" where
  "vector_resize n v =
     (if n > vector_max_size then Inl Length_error
      else Inr (take n v @ replicate (n - length v) 0))"

text \<open>Lines 239-243 (and 319-320 of the streaming entry point).\<close>

definition truncate_prompt :: "int \<Rightarrow> int \<Rightarrow> llama_token list \<Rightarrow> exn + llama_token list" where
  "truncate_prompt context_size maxTokens tokens =
     (let max_prompt = wrap32 (wrap32 (context_size - maxTokens) - 4)
      in if wrap32 (int (length tokens)) > max_prompt
         then vector_resize (to_size_t max_prompt) tokens
         else Inr tokens)"

section \<open>Generation\<close>

text \<open>
  One iteration of the loop of \<open>nativeGenerate\<close> (lines 254-270) on the session and the
  text accumulated in \<open>result\<close>; the flag is \<open>False\<close> when the iteration leaves the loop.
\<close>

definition generate_step :: "env \<Rightarrow> session \<times> byte list \<Rightarrow> bool \<times> session \<times> byte list" where
  "generate_step E st =
     (let s = fst st; result = snd st;
          s1 = (if g_current_pos s \<ge> g_context_size s - 4 then shift_context s else s);
          tok = common_sampler_sample E (calls s1);
          s2 = log_call (Sampler_sample tok) s1
      in if llama_vocab_is_eog E tok then (False, s2, result)
         else
           (let result1 = result @ common_token_to_piece E tok;
                s3 = common_batch_add tok (g_current_pos s2) [0] True (common_batch_clear s2);
                r = decode E s3
            in if \<not> fst r then (False, snd r, result1)
               else (True, (snd r)\<lparr>g_current_pos := g_current_pos (snd r) + 1\<rparr>, result1)))"

fun generate_loop :: "env \<Rightarrow> nat \<Rightarrow> session \<times> byte list \<Rightarrow> session \<times> byte list" where
  "generate_loop E 0 st = st"
| "generate_loop E (Suc k) st =
     (case generate_step E st of
        (True, st') \<Rightarrow> generate_loop E k st'
      | (False, st') \<Rightarrow> st')"

text \<open>The two error strings of \<open>nativeGenerate\<close>, as bytes.\<close>

definition bytes_of :: "string \<Rightarrow> byte list" where
  "bytes_of cs = map (\<lambda>c. of_nat (of_char c)) cs"

definition error_not_loaded :: "byte list" where
  "error_not_loaded = bytes_of ''[Error: Model not loaded]''"

definition error_prompt :: "byte list" where
  "error_prompt = bytes_of ''[Error: Failed to process prompt]''"

text \<open>
  \<open>nativeGenerate\<close> (lines 207-288). The result is \<open>None\<close> if the call does not return,
  \<open>Inl\<close> if a C++ exception leaves it, and otherwise the bytes of the returned string
  with the session.
\<close>

definition nativeGenerate ::
  "env \<Rightarrow> string \<Rightarrow> int \<Rightarrow> session \<Rightarrow> (exn + byte list \<times> session) option" where
  "nativeGenerate E prompt_str maxTokens s =
     (if \<not> g_model s \<or> \<not> g_context s then Some (Inr (error_not_loaded, s))
      else
        (let s1 = reset_gen_state (reset_chat_state True s);
             has_tmpl = common_chat_templates_was_explicit E
         in case truncate_prompt (g_context_size s1) maxTokens
                   (common_tokenize E prompt_str has_tmpl has_tmpl) of
              Inl e \<Rightarrow> Some (Inl e)
            | Inr tokens \<Rightarrow>
                (case decode_batched E tokens 0 True s1 of
                   None \<Rightarrow> None
                 | Some (rc, s2) \<Rightarrow>
                     if rc \<noteq> 0 then Some (Inr (error_prompt, s2))
                     else
                       (let st = generate_loop E (nat maxTokens)
                                   (s2\<lparr>g_current_pos := int (length tokens)\<rparr>, [])
                        in Some (Inr (c_str (trim_trailing_utf8 (snd st)), fst st))))))"

text \<open>
  One iteration of the loop of \<open>nativeGenerateStream\<close> (lines 335-361) on the session
  and the stream buffer \<open>cached\<close>. \<open>submit\<close> is the tail of the body (lines 358-361).
\<close>

definition submit ::
  "env \<Rightarrow> llama_token \<Rightarrow> session \<Rightarrow> byte list \<Rightarrow> bool \<times> session \<times> byte list" where
  "submit E tok s cached =
     (let s1 = common_batch_add tok (g_current_pos s) [0] True (common_batch_clear s);
          r = decode E s1
      in if \<not> fst r then (False, snd r, cached)
         else (True, (snd r)\<lparr>g_current_pos := g_current_pos (snd r) + 1\<rparr>, cached))"

definition stream_step :: "env \<Rightarrow> session \<times> byte list \<Rightarrow> bool \<times> session \<times> byte list" where
  "stream_step E st =
     (let s = fst st; cached = snd st;
          s1 = (if g_current_pos s \<ge> g_context_size s - 4 then shift_context s else s);
          tok = common_sampler_sample E (calls s1);
          s2 = log_call (Sampler_sample tok) s1
      in if llama_vocab_is_eog E tok then (False, s2, cached)
         else
           (let cached1 = cached @ common_token_to_piece E tok
            in if is_valid_utf8 cached1 then
                 (let threw = onToken_throws E (calls s2) (c_str cached1);
                      s3 = (log_call (On_token (c_str cached1) threw) s2)\<lparr>jni_exception := threw\<rparr>
                  in if jni_exception s3 then (False, s3\<lparr>jni_exception := False\<rparr>, [])
                     else submit E tok s3 [])
               else submit E tok s2 cached1))"

fun stream_loop :: "env \<Rightarrow> nat \<Rightarrow> session \<times> byte list \<Rightarrow> session \<times> byte list" where
  "stream_loop E 0 st = st"
| "stream_loop E (Suc k) st =
     (case stream_step E st of
        (True, st') \<Rightarrow> stream_loop E k st'
      | (False, st') \<Rightarrow> st')"

text \<open>
  \<open>nativeGenerateStream\<close> (lines 291-363). It returns nothing; the stream buffer is a
  local variable and ends with the call. A consumer without an \<open>onToken\<close> method leaves
  the lookup's exception pending.
\<close>

definition nativeGenerateStream ::
  "env \<Rightarrow> string \<Rightarrow> int \<Rightarrow> session \<Rightarrow> (exn + session) option" where
  "nativeGenerateStream E prompt_str maxTokens s =
     (if \<not> g_model s \<or> \<not> g_context s then Some (Inr s)
      else
        (let s1 = reset_gen_state (reset_chat_state True s);
             has_tmpl = common_chat_templates_was_explicit E
         in case truncate_prompt (g_context_size s1) maxTokens
                   (common_tokenize E prompt_str has_tmpl has_tmpl) of
              Inl e \<Rightarrow> Some (Inl e)
            | Inr tokens \<Rightarrow>
                (case decode_batched E tokens 0 True s1 of
                   None \<Rightarrow> None
                 | Some (rc, s2) \<Rightarrow>
                     if rc \<noteq> 0 then Some (Inr s2)
                     else if \<not> has_onToken E
                     then Some (Inr (s2\<lparr>g_current_pos := int (length tokens), jni_exception := True\<rparr>))
                     else Some (Inr (fst (stream_loop E (nat maxTokens)
                                            (s2\<lparr>g_current_pos := int (length tokens)\<rparr>, [])))))))"

text \<open>\<open>nativeTokenize\<close> (lines 366-384): the token array and the session after the call.\<close>

definition nativeTokenize :: "env \<Rightarrow> string \<Rightarrow> session \<Rightarrow> llama_token list \<times> session" where
  "nativeTokenize E text s =
     (if \<not> g_context s then ([], s) else (common_tokenize E text False False, s))"

section \<open>Observations on the call log\<close>

text \<open>The batches submitted to \<open>llama_decode\<close>, in order.\<close>

fun batches_of :: "call list \<Rightarrow> llama_batch list" where
  "batches_of [] = []"
| "batches_of (Decode b ok # cs) = b # batches_of cs"
| "batches_of (c # cs) = batches_of cs"

text \<open>The chunks delivered to the stream consumer, and the tokens sampled, in order.\<close>

fun chunks_of :: "call list \<Rightarrow> byte list list" where
  "chunks_of [] = []"
| "chunks_of (On_token ch threw # cs) = ch # chunks_of cs"
| "chunks_of (c # cs) = chunks_of cs"

fun samples_of :: "call list \<Rightarrow> llama_token list" where
  "samples_of [] = []"
| "samples_of (Sampler_sample t # cs) = t # samples_of cs"
| "samples_of (c # cs) = samples_of cs"

text \<open>
  A failed \<open>llama_decode\<close>; a delivery during which the consumer threw; and the property
  of a call log that nothing follows a call of the given kind.
\<close>

definition decode_failed :: "call \<Rightarrow> bool" where
  "decode_failed c = (case c of Decode b ok \<Rightarrow> \<not> ok | _ \<Rightarrow> False)"

definition cancelled :: "call \<Rightarrow> bool" where
  "cancelled c = (case c of On_token ch threw \<Rightarrow> threw | _ \<Rightarrow> False)"

fun stops_at :: "(call \<Rightarrow> bool) \<Rightarrow> call list \<Rightarrow> bool" where
  "stops_at P [] = True"
| "stops_at P (c # cs) = (if P c then cs = [] else stops_at P cs)"

text \<open>The number of evictions, counted by their \<open>llama_memory_seq_rm\<close> calls.\<close>

fun evictions :: "call list \<Rightarrow> nat" where
  "evictions [] = 0"
| "evictions (Memory_seq_rm p0 p1 # cs) = Suc (evictions cs)"
| "evictions (c # cs) = evictions cs"

text \<open>
  The eviction test as the specification words it: \<open>shouldEvict(pending)\<close> is true iff
  \<open>cursor + pending \<ge> capacity - reserve\<close>, with a reserve of 4 positions.
\<close>

definition spec_shouldEvict :: "int \<Rightarrow> int \<Rightarrow> int \<Rightarrow> bool" where
  "spec_shouldEvict cursor pending capacity = (cursor + pending \<ge> capacity - 4)"

text \<open>
  The entry that line 82 writes for the token at index \<open>k = i + j\<close> of the prompt.
\<close>

definition prompt_entry :: "llama_token list \<Rightarrow> llama_pos \<Rightarrow> bool \<Rightarrow> int \<Rightarrow> batch_entry" where
  "prompt_entry tokens start logit_last k =
     \<lparr>token = tokens ! nat k, pos = start + k, seq_id = [0],
      logits = (logit_last \<and> k = int (length tokens) - 1)\<rparr>"

section \<open>Example inputs\<close>

text \<open>
  A loaded session with a context of 16 positions and batches of 4, and an environment
  whose tokenizer gives one token per character, whose decode calls succeed, whose
  sampler draws 128, 129, ... and whose consumer never throws.
\<close>

definition session16 :: session where
  "session16 =
     \<lparr>g_model = True, g_context = True, g_context_size = 16, g_batch_size = 4,
      g_chat_msgs = [], g_system_pos = 0, g_current_pos = 0, g_stop_pos = 0,
      g_cached_chars = [], g_assistant_ss = [], g_batch = [], kv = [], calls = [],
      jni_exception = False\<rparr>"

definition is_sample :: "call \<Rightarrow> bool" where
  "is_sample c = (case c of Sampler_sample _ \<Rightarrow> True | _ \<Rightarrow> False)"

definition env0 :: env where
  "env0 =
     \<lparr>common_tokenize = (\<lambda>t a b. map (\<lambda>c. int (of_char c)) t),
      common_chat_templates_was_explicit = False,
      llama_decode = (\<lambda>cs b. True),
      common_sampler_sample = (\<lambda>cs. 128 + int (length (filter is_sample cs))),
      llama_vocab_is_eog = (\<lambda>t. t = 0),
      common_token_to_piece = (\<lambda>t. [of_int t]),
      has_onToken = True,
      onToken_throws = (\<lambda>cs c. False)\<rparr>"

text \<open>
  Variants: tokens whose text is one ASCII letter each (\<open>A\<close> for 128, \<open>B\<close> for 129, ...),
  a consumer that throws at every delivery, and one that throws at its second.
\<close>

definition env_ascii :: env where
  "env_ascii = env0\<lparr>common_token_to_piece := (\<lambda>t. [of_int (t - 63)])\<rparr>"

definition env_throw :: env where
  "env_throw = env_ascii\<lparr>onToken_throws := (\<lambda>cs ch. True)\<rparr>"

definition env_cancel :: env where
  "env_cancel = env_ascii\<lparr>onToken_throws := (\<lambda>cs ch. length (chunks_of cs) = 1)\<rparr>"







definition session_unloaded :: session where
  "session_unloaded = session16\<lparr>g_model := False, g_context := False\<rparr>"

section \<open>Eviction\<close>

lemma sdiv_two_nonneg: "0 \<le> k \<Longrightarrow> k sdiv 2 = k div (2::int)"
  by (simp add: signed_divide_int_def sgn_if)

lemma shift_context_fields:
  "g_current_pos (shift_context s) = g_current_pos s - (g_current_pos s - g_system_pos s) sdiv 2"
  "g_system_pos (shift_context s) = g_system_pos s"
  "calls (shift_context s) = calls s @
     [Memory_seq_rm (g_system_pos s) (g_system_pos s + (g_current_pos s - g_system_pos s) sdiv 2),
      Memory_seq_add (g_system_pos s + (g_current_pos s - g_system_pos s) sdiv 2) (g_current_pos s)
        (- ((g_current_pos s - g_system_pos s) sdiv 2))]"
  "g_context_size (shift_context s) = g_context_size s"
  "g_batch_size (shift_context s) = g_batch_size s"
  "g_batch (shift_context s) = g_batch s"
  "jni_exception (shift_context s) = jni_exception s"
  by (simp_all add: shift_context_def Let_def log_call_def)

lemma seq_rm_empty: "llama_memory_seq_rm m p p = m"
  by (simp add: llama_memory_seq_rm_def filter_id_conv)

lemma seq_add_empty: "llama_memory_seq_add m p p d = m"
  by (induction m) (auto simp add: llama_memory_seq_add_def)

text \<open>
  C1. An eviction with cursor \<open>C\<close> and system boundary \<open>S \<le> C\<close> discards
  \<open>(C - S) div 2\<close> positions: the cells at positions \<open>[S, S + discard)\<close> are removed,
  those at \<open>[S + discard, C)\<close> move down by \<open>discard\<close>, every other cell stays, the new
  cursor is \<open>C - discard \<ge> S\<close>, and the boundary is unchanged. With \<open>C = S\<close> nothing is
  discarded and the session is left as it was.
\<close>

theorem shift_context_half_window:
  assumes "g_system_pos s \<le> g_current_pos s"
  shows "let C = g_current_pos s; S = g_system_pos s; discard = (C - S) div 2;
             s' = shift_context s
         in g_current_pos s' = C - discard \<and> S \<le> g_current_pos s' \<and> g_system_pos s' = S \<and>
            kv s' = map (\<lambda>c. if S + discard \<le> fst c \<and> fst c < C then (fst c - discard, snd c) else c)
                      (filter (\<lambda>c. \<not> (S \<le> fst c \<and> fst c < S + discard)) (kv s)) \<and>
            calls s' = calls s @ [Memory_seq_rm S (S + discard),
                                  Memory_seq_add (S + discard) C (- discard)] \<and>
            (C = S \<longrightarrow> discard = 0 \<and> s' = s\<lparr>calls := calls s'\<rparr>)"
proof -
  let ?C = "g_current_pos s" and ?S = "g_system_pos s"
  let ?d = "(?C - ?S) div 2"
  have d: "(?C - ?S) sdiv 2 = ?d"
    using assms by (simp add: sdiv_two_nonneg)
  have cur: "g_current_pos (shift_context s) = ?C - ?d"
    by (simp add: shift_context_fields d)
  have bound: "?S \<le> ?C - ?d"
    using assms by linarith
  have mem: "kv (shift_context s) =
      map (\<lambda>c. if ?S + ?d \<le> fst c \<and> fst c < ?C then (fst c - ?d, snd c) else c)
        (filter (\<lambda>c. \<not> (?S \<le> fst c \<and> fst c < ?S + ?d)) (kv s))"
    by (auto simp add: shift_context_def Let_def log_call_def d
        llama_memory_seq_rm_def llama_memory_seq_add_def)
  have log: "calls (shift_context s) = calls s @
      [Memory_seq_rm ?S (?S + ?d), Memory_seq_add (?S + ?d) ?C (- ?d)]"
    by (simp add: shift_context_fields d)
  have noop: "shift_context s = s\<lparr>calls := calls (shift_context s)\<rparr>" if "?C = ?S"
  proof -
    have "shift_context s = s\<lparr>calls := calls (shift_context s), g_current_pos := ?C\<rparr>"
      using that
      by (simp add: shift_context_def Let_def log_call_def seq_rm_empty seq_add_empty)
    then show ?thesis by simp
  qed
  show ?thesis
    unfolding Let_def using cur bound mem log noop
    by (simp add: shift_context_fields)
qed

text \<open>
  Scenario B of the specification (cursor 12, boundary 2: 5 positions discarded, new
  cursor 7), and an eviction with \<open>C = S = 5\<close>.
\<close>

theorem shift_context_half_window_witness:
  "g_system_pos (session16\<lparr>g_system_pos := 2, g_current_pos := 12,
                          kv := map (\<lambda>i. (i, 100 + i)) [0..11]\<rparr>) \<le> 12 \<and>
   g_current_pos (shift_context (session16\<lparr>g_system_pos := 2, g_current_pos := 12,
                          kv := map (\<lambda>i. (i, 100 + i)) [0..11]\<rparr>)) = 7 \<and>
   g_system_pos (shift_context (session16\<lparr>g_system_pos := 2, g_current_pos := 12,
                          kv := map (\<lambda>i. (i, 100 + i)) [0..11]\<rparr>)) = 2 \<and>
   calls (shift_context (session16\<lparr>g_system_pos := 2, g_current_pos := 12,
                          kv := map (\<lambda>i. (i, 100 + i)) [0..11]\<rparr>)) =
     [Memory_seq_rm 2 7, Memory_seq_add 7 12 (- 5)] \<and>
   shift_context (session16\<lparr>g_system_pos := 5, g_current_pos := 5\<rparr>) =
     session16\<lparr>g_system_pos := 5, g_current_pos := 5,
               calls := [Memory_seq_rm 5 5, Memory_seq_add 5 5 0]\<rparr>"
proof -
  let ?s = "session16\<lparr>g_system_pos := 2, g_current_pos := 12,
                       kv := map (\<lambda>i. (i, 100 + i)) [0..11]\<rparr>"
  let ?t = "session16\<lparr>g_system_pos := 5, g_current_pos := 5\<rparr>"
  have hs: "g_system_pos ?s \<le> g_current_pos ?s" and ht: "g_system_pos ?t \<le> g_current_pos ?t"
    by simp_all
  have a: "g_current_pos (shift_context ?s) = 7 \<and> g_system_pos (shift_context ?s) = 2 \<and>
           calls (shift_context ?s) = [Memory_seq_rm 2 7, Memory_seq_add 7 12 (- 5)]"
    using shift_context_half_window [OF hs] by (simp add: Let_def session16_def)
  have eq: "g_current_pos ?t = g_system_pos ?t"
    by simp
  have b1: "shift_context ?t = ?t\<lparr>calls := calls (shift_context ?t)\<rparr>"
    using shift_context_half_window [OF ht, unfolded Let_def] eq by blast
  have b2: "calls (shift_context ?t) = [Memory_seq_rm 5 5, Memory_seq_add 5 5 0]"
    using shift_context_half_window [OF ht] by (simp add: Let_def session16_def)
  have c: "shift_context ?t = ?t\<lparr>calls := [Memory_seq_rm 5 5, Memory_seq_add 5 5 0]\<rparr>"
    by (subst b1) (simp only: b2)
  show ?thesis using a c by simp
qed

section \<open>Batched prompt submission: the partition\<close>

lemma batches_of_append: "batches_of (xs @ ys) = batches_of xs @ batches_of ys"
  by (induction xs rule: batches_of.induct) simp_all

lemma foldl_batch_add:
  "foldl (\<lambda>s' j. common_batch_add (f j) (p j) ids (l j) s') s js =
   s\<lparr>g_batch := g_batch s @ map (\<lambda>j. \<lparr>token = f j, pos = p j, seq_id = ids, logits = l j\<rparr>) js\<rparr>"
  by (induction js arbitrary: s) (simp_all add: common_batch_add_def)

lemma upto_from_0: "[0..int n - 1] = map int [0..<n]"
proof (induction n)
  case 0
  then show ?case by simp
next
  case (Suc n)
  have "[0..int (Suc n) - 1] = [0..int n - 1] @ [int n]"
    using upto_rec2 [of 0 "int n"] by simp
  then show ?case using Suc by simp
qed

lemma map_upto_upt: "map f [0..c - 1] = map (\<lambda>k. f (int k)) [0..<nat c]"
proof (cases "0 \<le> c")
  case True
  then have "[0..c - 1] = map int [0..<nat c]"
    using upto_from_0 [of "nat c"] by simp
  then show ?thesis by (simp add: comp_def)
next
  case False
  then show ?thesis by simp
qed

lemma decode_chunk_eq:
  "decode_chunk E tokens start ll (int m) s =
     decode E ((if start + int m + min (int (length tokens) - int m) (g_batch_size s)
                     \<ge> g_context_size s - 4
                then shift_context (s\<lparr>g_batch := []\<rparr>) else s\<lparr>g_batch := []\<rparr>)
               \<lparr>g_batch := map (\<lambda>k. prompt_entry tokens start ll (int k))
                              [m..<m + nat (min (int (length tokens) - int m) (g_batch_size s))]\<rparr>)"
proof -
  let ?cur = "min (int (length tokens) - int m) (g_batch_size s)"
  have b: "map (\<lambda>j. \<lparr>token = tokens ! nat (int m + j), pos = start + int m + j, seq_id = [0],
                    logits = (ll \<and> int m + j = int (length tokens) - 1)\<rparr>) [0..?cur - 1] =
           map (\<lambda>k. prompt_entry tokens start ll (int k)) [m..<m + nat ?cur]"
    (is "?l = ?r")
  proof -
    have "?l = map (\<lambda>j. prompt_entry tokens start ll (int m + j)) [0..?cur - 1]"
      by (simp add: prompt_entry_def add.assoc)
    also have "\<dots> = map (\<lambda>k. prompt_entry tokens start ll (int (k + m))) [0..<nat ?cur]"
      by (simp add: map_upto_upt add.commute)
    also have "\<dots> = ?r"
    proof -
      have "[m..<m + nat ?cur] = map (\<lambda>k. k + m) [0..<nat ?cur]"
        by (simp add: map_add_upt add.commute)
      then show ?thesis by (simp add: comp_def)
    qed
    finally show ?thesis .
  qed
  show ?thesis
    unfolding decode_chunk_def Let_def foldl_batch_add b common_batch_clear_def
    by (simp add: shift_context_fields)
qed


lemma decode_fields:
  "fst (decode E s) = llama_decode E (calls s) (g_batch s)"
  "calls (snd (decode E s)) = calls s @ [Decode (g_batch s) (llama_decode E (calls s) (g_batch s))]"
  "g_batch_size (snd (decode E s)) = g_batch_size s"
  "g_context_size (snd (decode E s)) = g_context_size s"
  "g_current_pos (snd (decode E s)) = g_current_pos s"
  "g_system_pos (snd (decode E s)) = g_system_pos s"
  "jni_exception (snd (decode E s)) = jni_exception s"
  by (simp_all add: decode_def Let_def log_call_def)

lemma batches_of_shift_context: "batches_of (calls (shift_context s)) = batches_of (calls s)"
  by (simp add: shift_context_fields batches_of_append)

lemma decode_chunk_props:
  "g_batch_size (snd (decode_chunk E tokens start ll (int m) s)) = g_batch_size s"
  "batches_of (calls (snd (decode_chunk E tokens start ll (int m) s))) =
     batches_of (calls s) @
     [map (\<lambda>k. prompt_entry tokens start ll (int k))
        [m..<m + nat (min (int (length tokens) - int m) (g_batch_size s))]]"
  by (simp_all add: decode_chunk_eq decode_fields shift_context_fields batches_of_append
        batches_of_shift_context)









section \<open>When eviction is triggered\<close>

lemma evictions_append: "evictions (xs @ ys) = evictions xs + evictions ys"
  by (induction xs rule: evictions.induct) simp_all

lemma evictions_shift_context: "evictions (calls (shift_context s)) = Suc (evictions (calls s))"
  by (simp add: shift_context_fields evictions_append)

lemma submit_calls:
  "calls (fst (snd (submit E tok s c))) =
     calls s @ [Decode [\<lparr>token = tok, pos = g_current_pos s, seq_id = [0], logits = True\<rparr>]
                  (llama_decode E (calls s)
                     [\<lparr>token = tok, pos = g_current_pos s, seq_id = [0], logits = True\<rparr>])]"
  by (simp add: submit_def Let_def decode_fields common_batch_add_def common_batch_clear_def)

lemma generate_step_evictions:
  "evictions (calls (fst (snd (generate_step E (s, r))))) =
     evictions (calls s) + (if g_current_pos s \<ge> g_context_size s - 4 then 1 else 0)"
  by (simp add: generate_step_def Let_def log_call_def decode_fields evictions_append
      evictions_shift_context common_batch_add_def common_batch_clear_def)

lemma stream_step_evictions:
  "evictions (calls (fst (snd (stream_step E (s, c))))) =
     evictions (calls s) + (if g_current_pos s \<ge> g_context_size s - 4 then 1 else 0)"
  by (simp add: stream_step_def Let_def log_call_def submit_calls evictions_append
      evictions_shift_context)

lemma decode_chunk_evictions:
  "evictions (calls (snd (decode_chunk E tokens start ll i s))) =
     evictions (calls s) +
     (if start + i + min (int (length tokens) - i) (g_batch_size s) \<ge> g_context_size s - 4
      then 1 else 0)"
  by (simp add: decode_chunk_def Let_def foldl_batch_add decode_fields evictions_append
      evictions_shift_context common_batch_clear_def)


lemma decode_chunk_tail:
  "\<exists>tail. calls (snd (decode_chunk E tokens start ll i s)) =
      calls (if start + i + min (int (length tokens) - i) (g_batch_size s) \<ge> g_context_size s - 4
             then shift_context s else s) @ tail \<and> evictions tail = 0"
  by (simp add: decode_chunk_def Let_def foldl_batch_add decode_fields
      common_batch_clear_def shift_context_fields)

lemma generate_step_tail:
  "\<exists>tail. calls (fst (snd (generate_step E (s, r)))) =
      calls (if g_current_pos s \<ge> g_context_size s - 4 then shift_context s else s) @ tail \<and>
      evictions tail = 0"
  by (simp add: generate_step_def Let_def log_call_def decode_fields
      common_batch_add_def common_batch_clear_def)

lemma stream_step_tail:
  "\<exists>tail. calls (fst (snd (stream_step E (s, c)))) =
      calls (if g_current_pos s \<ge> g_context_size s - 4 then shift_context s else s) @ tail \<and>
      evictions tail = 0"
  by (simp add: stream_step_def Let_def log_call_def submit_calls)

text \<open>
  C3, as amended. Every prompt chunk and every iteration of either generation loop
  evicts at most once, at its start, before anything is sampled or submitted. For a
  prompt chunk of \<open>cur\<close> tokens whose first token has position \<open>start + i\<close> the eviction
  happens iff \<open>start + i + cur \<ge> g_context_size - 4\<close> (the cursor \<open>g_current_pos\<close> is not
  consulted: it is advanced only after the whole prompt). For the single-token batch
  of a generation step it happens iff \<open>g_current_pos \<ge> g_context_size - 4\<close>: the pending
  token is not added.
\<close>

theorem eviction_trigger:
  "(let cur = min (int (length tokens) - i) (g_batch_size s);
        evict = (start + i + cur \<ge> g_context_size s - 4);
        s' = snd (decode_chunk E tokens start ll i s)
    in evictions (calls s') = evictions (calls s) + (if evict then 1 else 0) \<and>
       (\<exists>tail. calls s' = calls (if evict then shift_context s else s) @ tail \<and>
               evictions tail = 0)) \<and>
   (let evict = (g_current_pos s \<ge> g_context_size s - 4);
        s' = fst (snd (generate_step E (s, result)))
    in evictions (calls s') = evictions (calls s) + (if evict then 1 else 0) \<and>
       (\<exists>tail. calls s' = calls (if evict then shift_context s else s) @ tail \<and>
               evictions tail = 0)) \<and>
   (let evict = (g_current_pos s \<ge> g_context_size s - 4);
        s' = fst (snd (stream_step E (s, cached)))
    in evictions (calls s') = evictions (calls s) + (if evict then 1 else 0) \<and>
       (\<exists>tail. calls s' = calls (if evict then shift_context s else s) @ tail \<and>
               evictions tail = 0))"
  unfolding Let_def
  using decode_chunk_tail [of E tokens start ll i s] decode_chunk_evictions [of E tokens start ll i s]
    generate_step_tail [of E s result] generate_step_evictions [of E s result]
    stream_step_tail [of E s cached] stream_step_evictions [of E s cached]
  by blast

text \<open>
  The claim as stated fails in the generation loop: with capacity 16 and cursor 11 one
  token is pending and \<open>11 + 1 \<ge> 16 - 4\<close>, but the step submits its batch without an
  eviction.
\<close>

theorem eviction_trigger_counterexample:
  "spec_shouldEvict (g_current_pos (session16\<lparr>g_current_pos := 11\<rparr>)) 1
     (g_context_size (session16\<lparr>g_current_pos := 11\<rparr>)) \<and>
   evictions (calls (fst (snd (generate_step env0 (session16\<lparr>g_current_pos := 11\<rparr>, []))))) = 0 \<and>
   batches_of (calls (fst (snd (generate_step env0 (session16\<lparr>g_current_pos := 11\<rparr>, []))))) =
     [[\<lparr>token = 128, pos = 11, seq_id = [0], logits = True\<rparr>]]"
  by (simp add: spec_shouldEvict_def generate_step_def Let_def log_call_def decode_def
      common_batch_add_def common_batch_clear_def session16_def env0_def is_sample_def)

text \<open>An instance where all three checks fire: cursor 12, and a chunk ending at 12.\<close>

theorem eviction_trigger_witness:
  "evictions (calls (snd (decode_chunk env0 [1, 2, 3, 4, 5, 6, 7, 8, 9, 10, 11, 12] 0 True 8
      (session16\<lparr>g_current_pos := 12\<rparr>)))) = 1 \<and>
   evictions (calls (fst (snd (generate_step env0 (session16\<lparr>g_current_pos := 12\<rparr>, []))))) = 1 \<and>
   evictions (calls (fst (snd (stream_step env0 (session16\<lparr>g_current_pos := 12\<rparr>, []))))) = 1"
  using eviction_trigger [where s = "session16\<lparr>g_current_pos := 12\<rparr>" and E = env0
      and tokens = "[1, 2, 3, 4, 5, 6, 7, 8, 9, 10, 11, 12]" and start = 0 and i = 8
      and ll = True and result = "[]" and cached = "[]"]
  by (simp add: Let_def session16_def)

section \<open>Prompt truncation: the kept prefix and the unchecked bound\<close>

lemma wrap32_id: "- (2 ^ 31) \<le> k \<Longrightarrow> k < 2 ^ 31 \<Longrightarrow> wrap32 k = k"
  unfolding wrap32_def by (rule signed_take_bit_int_eq_self)

text \<open>
  When the bound \<open>context_size - maxTokens - 4\<close> is not negative (and is computed
  without 32-bit overflow, for a prompt of fewer than \<open>2 ^ 31\<close> tokens), a prompt
  longer than the bound is cut to its prefix of that length, dropping the trailing
  tokens, and a prompt at or below the bound is passed on unchanged.
\<close>

lemma truncate_prompt_prefix:
  assumes "0 \<le> context_size - maxTokens - 4" and "context_size - maxTokens < 2 ^ 31"
    and "length tokens < 2 ^ 31"
  shows "truncate_prompt context_size maxTokens tokens =
           Inr (if int (length tokens) > context_size - maxTokens - 4
                then take (nat (context_size - maxTokens - 4)) tokens else tokens)"
proof -
  let ?mp = "context_size - maxTokens - 4"
  have w1: "wrap32 (context_size - maxTokens) = context_size - maxTokens"
    using assms by (intro wrap32_id) simp_all
  have w2: "wrap32 ?mp = ?mp"
    using assms by (intro wrap32_id) simp_all
  have w3: "wrap32 (int (length tokens)) = int (length tokens)"
    using assms by (intro wrap32_id) simp_all
  have sz: "to_size_t ?mp = nat ?mp"
  proof -
    have "?mp < 2 ^ 64" using assms by simp
    then have "?mp mod 2 ^ 64 = ?mp" using assms by simp
    then show ?thesis by (simp add: to_size_t_def)
  qed
  have rs: "vector_resize (nat ?mp) tokens = Inr (take (nat ?mp) tokens)"
    if "int (length tokens) > ?mp"
  proof -
    have "nat ?mp < 2 ^ 31" using assms by simp
    then have "nat ?mp \<le> vector_max_size" by (simp add: vector_max_size_def)
    moreover have "nat ?mp - length tokens = 0" using that by simp
    ultimately show ?thesis by (simp add: vector_resize_def)
  qed
  show ?thesis
    using rs by (simp add: truncate_prompt_def Let_def w1 w2 w3 sz)
qed

text \<open>Capacity 16 and 4 tokens to generate: a prompt of 10 tokens is cut to 8.\<close>

lemma truncate_prompt_prefix_example:
  "(0::int) \<le> 16 - 4 - 4 \<and> (16::int) - 4 < 2 ^ 31 \<and>
   length [1, 2, 3, 4, 5, 6, 7, 8, 9, 10 :: int] < 2 ^ 31 \<and>
   truncate_prompt 16 4 [1, 2, 3, 4, 5, 6, 7, 8, 9, 10] = Inr [1, 2, 3, 4, 5, 6, 7, 8] \<and>
   truncate_prompt 16 4 [1, 2, 3] = Inr [1, 2, 3]"
  using truncate_prompt_prefix [of 16 4 "[1, 2, 3, 4, 5, 6, 7, 8, 9, 10]"]
    truncate_prompt_prefix [of 16 4 "[1, 2, 3]"]
  by simp

text \<open>
  C5. A prompt longer than \<open>capacity - maxTokens - 4\<close> is to be cut to its prefix of that
  length. The code does so for a bound that is not negative, as shown above, but it
  does not check the bound: with capacity 16 and 20 tokens to generate the bound is
  \<open>-8\<close>, a prompt of 3 tokens is longer than that, and no prefix is submitted. The
  resize throws \<open>std::length_error\<close>, which leaves both entry points.
\<close>

theorem truncate_prompt_negative_bound:
  "int (length (common_tokenize env0 ''abc'' False False)) > 16 - 20 - 4 \<and>
   truncate_prompt 16 20 (common_tokenize env0 ''abc'' False False) = Inl Length_error \<and>
   nativeGenerate env0 ''abc'' 20 session16 = Some (Inl Length_error) \<and>
   nativeGenerateStream env0 ''abc'' 20 session16 = Some (Inl Length_error)"
  by (simp add: truncate_prompt_def wrap32_def to_size_t_def vector_resize_def
      vector_max_size_def nativeGenerate_def nativeGenerateStream_def reset_chat_state_def
      reset_gen_state_def log_call_def Let_def session16_def env0_def)

text \<open>The arithmetic of that call: the count passed to the resize is \<open>2 ^ 64 - 8\<close>.\<close>

theorem truncate_prompt_negative_bound_witness:
  "wrap32 (wrap32 (16 - 20) - 4) = - 8 \<and> to_size_t (- 8) = 2 ^ 64 - 8 \<and>
   vector_max_size < to_size_t (- 8) \<and>
   truncate_prompt 16 20 [97, 98, 99] = Inl Length_error"
  using truncate_prompt_negative_bound
  by (simp add: wrap32_def to_size_t_def vector_max_size_def env0_def)

text \<open>
  C10. The truncation step is not total. With capacity 4096 and \<open>maxTokens = 5000\<close> the
  bound is \<open>-908\<close>; the guard \<open>tokens.size() > max_prompt\<close> holds for every prompt, and
  \<open>resize\<close> is called with \<open>2 ^ 64 - 908\<close>, above \<open>max_size()\<close>: \<open>std::length_error\<close>
  leaves both entry points.
\<close>

theorem truncate_prompt_length_error:
  "truncate_prompt 4096 5000 [1] = Inl Length_error \<and>
   nativeGenerate (env0\<lparr>common_tokenize := \<lambda>t a b. [1]\<rparr>) ''x'' 5000
     (session16\<lparr>g_context_size := 4096, g_batch_size := 512\<rparr>) = Some (Inl Length_error) \<and>
   nativeGenerateStream (env0\<lparr>common_tokenize := \<lambda>t a b. [1]\<rparr>) ''x'' 5000
     (session16\<lparr>g_context_size := 4096, g_batch_size := 512\<rparr>) = Some (Inl Length_error)"
  by (simp add: truncate_prompt_def wrap32_def to_size_t_def vector_resize_def
      vector_max_size_def nativeGenerate_def nativeGenerateStream_def reset_chat_state_def
      reset_gen_state_def log_call_def Let_def session16_def env0_def)

text \<open>The arithmetic of the failing call.\<close>

theorem truncate_prompt_length_error_witness:
  "wrap32 (wrap32 (4096 - 5000) - 4) = - 908 \<and> to_size_t (- 908) = 2 ^ 64 - 908 \<and>
   vector_max_size < to_size_t (- 908) \<and>
   truncate_prompt 4096 5000 [1] = Inl Length_error"
  using truncate_prompt_length_error
  by (simp add: wrap32_def to_size_t_def vector_max_size_def)

section \<open>The call log of the streaming loop and of the prompt submission\<close>

lemma chunks_of_append: "chunks_of (xs @ ys) = chunks_of xs @ chunks_of ys"
  by (induction xs rule: chunks_of.induct) simp_all

lemma samples_of_append: "samples_of (xs @ ys) = samples_of xs @ samples_of ys"
  by (induction xs rule: samples_of.induct) simp_all

lemma stops_at_append: "filter P xs = [] \<Longrightarrow> stops_at P (xs @ ys) = stops_at P ys"
  by (induction xs) (auto split: if_splits)

lemma stops_at_none: "filter P xs = [] \<Longrightarrow> stops_at P xs"
  using stops_at_append [of P xs "[]"] by simp

lemma utf8_scan_c_str: "utf8_scan k (c_str bs) = utf8_scan k bs"
proof (induction k bs rule: utf8_scan.induct)
  case (3 b bs)
  then show ?case
    by (cases "b = 0") (auto simp add: c_str_def split: option.splits)
next
  case (4 k b bs)
  then show ?case by (cases "b = 0") (simp_all add: c_str_def)
qed (simp_all add: c_str_def)

lemma is_valid_utf8_c_str: "is_valid_utf8 (c_str bs) = is_valid_utf8 bs"
  by (simp add: is_valid_utf8_def utf8_scan_c_str)

lemma shift_context_log:
  "\<exists>sh. calls (shift_context s) = calls s @ sh \<and> chunks_of sh = [] \<and> samples_of sh = [] \<and>
        batches_of sh = [] \<and> filter cancelled sh = [] \<and> filter decode_failed sh = []"
  by (simp add: shift_context_fields cancelled_def decode_failed_def)


lemma submit_eq:
  "submit E tok s c =
     (let b = [\<lparr>token = tok, pos = g_current_pos s, seq_id = [0], logits = True\<rparr>];
          ok = llama_decode E (calls s) b;
          s' = s\<lparr>g_batch := b, kv := (if ok then kv s @ [(g_current_pos s, tok)] else kv s),
                 calls := calls s @ [Decode b ok],
                 g_current_pos := (if ok then g_current_pos s + 1 else g_current_pos s)\<rparr>
      in (ok, s', c))"
  by (simp add: submit_def Let_def decode_def log_call_def common_batch_add_def
      common_batch_clear_def)

lemma stream_step_eog:
  assumes "s1 = (if g_current_pos s \<ge> g_context_size s - 4 then shift_context s else s)"
    and "tok = common_sampler_sample E (calls s1)"
    and "llama_vocab_is_eog E tok"
  shows "stream_step E (s, cached) = (False, log_call (Sampler_sample tok) s1, cached)"
  using assms by (simp add: stream_step_def Let_def)

lemma stream_step_cancel:
  assumes "s1 = (if g_current_pos s \<ge> g_context_size s - 4 then shift_context s else s)"
    and "tok = common_sampler_sample E (calls s1)"
    and "buf = cached @ common_token_to_piece E tok"
    and "\<not> llama_vocab_is_eog E tok" and "is_valid_utf8 buf"
    and "onToken_throws E (calls s1 @ [Sampler_sample tok]) (c_str buf)"
  shows "stream_step E (s, cached) =
           (False, s1\<lparr>calls := calls s1 @ [Sampler_sample tok, On_token (c_str buf) True],
                      jni_exception := False\<rparr>, [])"
  using assms by (simp add: stream_step_def Let_def log_call_def)

lemma stream_step_deliver:
  assumes "s1 = (if g_current_pos s \<ge> g_context_size s - 4 then shift_context s else s)"
    and "tok = common_sampler_sample E (calls s1)"
    and "buf = cached @ common_token_to_piece E tok"
    and "\<not> llama_vocab_is_eog E tok" and "is_valid_utf8 buf"
    and "\<not> onToken_throws E (calls s1 @ [Sampler_sample tok]) (c_str buf)"
  shows "stream_step E (s, cached) =
           submit E tok (s1\<lparr>calls := calls s1 @ [Sampler_sample tok, On_token (c_str buf) False],
                             jni_exception := False\<rparr>) []"
  using assms by (simp add: stream_step_def Let_def log_call_def)

lemma stream_step_hold:
  assumes "s1 = (if g_current_pos s \<ge> g_context_size s - 4 then shift_context s else s)"
    and "tok = common_sampler_sample E (calls s1)"
    and "buf = cached @ common_token_to_piece E tok"
    and "\<not> llama_vocab_is_eog E tok" and "\<not> is_valid_utf8 buf"
  shows "stream_step E (s, cached) =
           submit E tok (s1\<lparr>calls := calls s1 @ [Sampler_sample tok]\<rparr>) buf"
  using assms by (simp add: stream_step_def Let_def log_call_def)

lemma evict_check_log:
  "\<exists>sh. calls (if g_current_pos s \<ge> g_context_size s - 4 then shift_context s else s) =
          calls s @ sh \<and> chunks_of sh = [] \<and> samples_of sh = [] \<and>
          batches_of sh = [] \<and> filter cancelled sh = [] \<and> filter decode_failed sh = []"
  using shift_context_log [of s] by auto

lemma stream_step_log:
  "\<exists>evs. calls (fst (snd (stream_step E (s, c)))) = calls s @ evs \<and>
     (\<forall>ch\<in>set (chunks_of evs). is_valid_utf8 ch) \<and>
     (if fst (stream_step E (s, c))
      then filter cancelled evs = [] \<and> filter decode_failed evs = []
      else stops_at cancelled evs \<and> stops_at decode_failed evs)"
proof -
  define s1 where "s1 = (if g_current_pos s \<ge> g_context_size s - 4 then shift_context s else s)"
  define tok where "tok = common_sampler_sample E (calls s1)"
  define buf where "buf = c @ common_token_to_piece E tok"
  obtain sh where sh: "calls s1 = calls s @ sh" "chunks_of sh = []"
    "filter cancelled sh = []" "filter decode_failed sh = []"
    using evict_check_log [of s] unfolding s1_def by blast
  note defs = cancelled_def decode_failed_def chunks_of_append stops_at_append
    is_valid_utf8_c_str Let_def
  consider (eog) "llama_vocab_is_eog E tok"
    | (cancel) "\<not> llama_vocab_is_eog E tok" "is_valid_utf8 buf"
        "onToken_throws E (calls s1 @ [Sampler_sample tok]) (c_str buf)"
    | (deliver) "\<not> llama_vocab_is_eog E tok" "is_valid_utf8 buf"
        "\<not> onToken_throws E (calls s1 @ [Sampler_sample tok]) (c_str buf)"
    | (hold) "\<not> llama_vocab_is_eog E tok" "\<not> is_valid_utf8 buf"
    by blast
  then show ?thesis
  proof cases
    case eog
    show ?thesis
      unfolding stream_step_eog [OF s1_def tok_def eog]
      using sh by (simp add: log_call_def defs)
  next
    case cancel
    show ?thesis
      unfolding stream_step_cancel [OF s1_def tok_def buf_def cancel]
      using sh cancel by (simp add: defs)
  next
    case deliver
    show ?thesis
      unfolding stream_step_deliver [OF s1_def tok_def buf_def deliver] submit_eq
      using sh deliver by (simp add: defs)
  next
    case hold
    show ?thesis
      unfolding stream_step_hold [OF s1_def tok_def buf_def hold] submit_eq
      using sh hold by (simp add: defs)
  qed
qed


lemma stream_loop_log:
  "\<exists>evs. calls (fst (stream_loop E k (s, c))) = calls s @ evs \<and>
     (\<forall>ch\<in>set (chunks_of evs). is_valid_utf8 ch) \<and>
     stops_at cancelled evs \<and> stops_at decode_failed evs"
proof (induction k arbitrary: s c)
  case 0
  then show ?case by simp
next
  case (Suc k)
  obtain cont s' c' where r: "stream_step E (s, c) = (cont, s', c')"
    by (cases "stream_step E (s, c)") auto
  obtain evs where evs: "calls s' = calls s @ evs"
    "\<forall>ch\<in>set (chunks_of evs). is_valid_utf8 ch"
    "if cont then filter cancelled evs = [] \<and> filter decode_failed evs = []
     else stops_at cancelled evs \<and> stops_at decode_failed evs"
    using stream_step_log [of E s c] r by auto
  show ?case
  proof (cases cont)
    case False
    then show ?thesis using r evs by auto
  next
    case True
    obtain evs' where evs': "calls (fst (stream_loop E k (s', c'))) = calls s' @ evs'"
      "\<forall>ch\<in>set (chunks_of evs'). is_valid_utf8 ch"
      "stops_at cancelled evs'" "stops_at decode_failed evs'"
      using Suc [of s' c'] by blast
    have "calls (fst (stream_loop E (Suc k) (s, c))) = calls s @ (evs @ evs')"
      using r True evs(1) evs'(1) by simp
    moreover have "\<forall>ch\<in>set (chunks_of (evs @ evs')). is_valid_utf8 ch"
      using evs(2) evs'(2) by (auto simp add: chunks_of_append)
    moreover have "stops_at cancelled (evs @ evs')" "stops_at decode_failed (evs @ evs')"
      using True evs(3) evs'(3,4) by (simp_all add: stops_at_append)
    ultimately show ?thesis by blast
  qed
qed



lemma decode_chunk_frame:
  "\<exists>evs. calls (snd (decode_chunk E tokens start ll i s)) = calls s @ evs \<and>
     chunks_of evs = [] \<and> samples_of evs = [] \<and> filter cancelled evs = [] \<and>
     (if fst (decode_chunk E tokens start ll i s) then filter decode_failed evs = []
      else stops_at decode_failed evs)"
  "g_model (snd (decode_chunk E tokens start ll i s)) = g_model s"
  "g_context (snd (decode_chunk E tokens start ll i s)) = g_context s"
  "g_context_size (snd (decode_chunk E tokens start ll i s)) = g_context_size s"
  "jni_exception (snd (decode_chunk E tokens start ll i s)) = jni_exception s"
  by (simp_all add: decode_chunk_def Let_def foldl_batch_add decode_def log_call_def
      common_batch_clear_def shift_context_def cancelled_def decode_failed_def)

lemma decode_loop_frame:
  assumes "0 < g_batch_size s"
  shows "\<exists>rc s' evs. decode_loop E tokens start ll (int m) s = Some (rc, s') \<and>
           calls s' = calls s @ evs \<and> chunks_of evs = [] \<and> samples_of evs = [] \<and>
           filter cancelled evs = [] \<and> stops_at decode_failed evs \<and>
           (rc = 0 \<longrightarrow> filter decode_failed evs = []) \<and>
           g_model s' = g_model s \<and> g_context s' = g_context s \<and>
           g_context_size s' = g_context_size s \<and> g_batch_size s' = g_batch_size s \<and>
           jni_exception s' = jni_exception s"
  using assms
proof (induction "length tokens - m" arbitrary: m s rule: less_induct)
  case less
  let ?n = "length tokens" and ?B = "g_batch_size s"
  show ?case
  proof (cases "m < ?n")
    case False
    then have "decode_loop E tokens start ll (int m) s = Some (0, s)"
      by (subst decode_loop.simps) simp
    then show ?thesis by simp
  next
    case True
    let ?r = "decode_chunk E tokens start ll (int m) s"
    obtain evs where evs: "calls (snd ?r) = calls s @ evs" "chunks_of evs = []"
      "samples_of evs = []" "filter cancelled evs = []"
      "if fst ?r then filter decode_failed evs = [] else stops_at decode_failed evs"
      using decode_chunk_frame(1) [of E tokens start ll "int m" s] by blast
    have B: "g_batch_size (snd ?r) = ?B" by (simp add: decode_chunk_props)
    note frame = decode_chunk_frame(2-5) [of E tokens start ll "int m" s]
    show ?thesis
    proof (cases "fst ?r")
      case False
      then have "decode_loop E tokens start ll (int m) s = Some (1, snd ?r)"
        using True by (subst decode_loop.simps) simp
      then show ?thesis using evs False B frame by simp
    next
      case ok: True
      let ?m' = "m + nat ?B"
      have step: "decode_loop E tokens start ll (int m) s =
                  decode_loop E tokens start ll (int ?m') (snd ?r)"
        using True ok less.prems by (subst decode_loop.simps) (simp add: B)
      have "?n - ?m' < ?n - m" using True less.prems by simp
      moreover have "0 < g_batch_size (snd ?r)" using less.prems B by simp
      ultimately obtain rc s' evs' where
        run: "decode_loop E tokens start ll (int ?m') (snd ?r) = Some (rc, s')" and
        log: "calls s' = calls (snd ?r) @ evs'" and
        obs: "chunks_of evs' = []" "samples_of evs' = []" "filter cancelled evs' = []"
          "stops_at decode_failed evs'" "rc = 0 \<longrightarrow> filter decode_failed evs' = []" and
        fr: "g_model s' = g_model (snd ?r)" "g_context s' = g_context (snd ?r)"
          "g_context_size s' = g_context_size (snd ?r)" "g_batch_size s' = g_batch_size (snd ?r)"
          "jni_exception s' = jni_exception (snd ?r)"
        using less.hyps [of ?m' "snd ?r"] by blast
      have "decode_loop E tokens start ll (int m) s = Some (rc, s')"
        using step run by simp
      moreover have "calls s' = calls s @ (evs @ evs')"
        using log evs(1) by simp
      moreover have "chunks_of (evs @ evs') = []" "samples_of (evs @ evs') = []"
        "filter cancelled (evs @ evs') = []" "stops_at decode_failed (evs @ evs')"
        "rc = 0 \<longrightarrow> filter decode_failed (evs @ evs') = []"
        using evs obs ok by (simp_all add: chunks_of_append samples_of_append stops_at_append)
      moreover have "g_model s' = g_model s" "g_context s' = g_context s"
        "g_context_size s' = g_context_size s" "g_batch_size s' = g_batch_size s"
        "jni_exception s' = jni_exception s"
        using fr frame B by simp_all
      ultimately show ?thesis by blast
    qed
  qed
qed

lemma reset_fields:
  "g_batch_size (reset_gen_state (reset_chat_state True s)) = g_batch_size s"
  "g_context_size (reset_gen_state (reset_chat_state True s)) = g_context_size s"
  "g_model (reset_gen_state (reset_chat_state True s)) = g_model s"
  "g_context (reset_gen_state (reset_chat_state True s)) = g_context s"
  "jni_exception (reset_gen_state (reset_chat_state True s)) = jni_exception s"
  "calls (reset_gen_state (reset_chat_state True s)) =
     calls s @ (if g_context s then [Memory_clear] else [])"
  by (simp_all add: reset_gen_state_def reset_chat_state_def Let_def log_call_def)

lemma stream_step_jni:
  "\<not> jni_exception s \<Longrightarrow> \<not> jni_exception (fst (snd (stream_step E (s, c))))"
  by (simp add: stream_step_def Let_def log_call_def submit_eq shift_context_fields)

lemma stream_loop_jni:
  "\<not> jni_exception s \<Longrightarrow> \<not> jni_exception (fst (stream_loop E k (s, c)))"
proof (induction k arbitrary: s c)
  case 0
  then show ?case by simp
next
  case (Suc k)
  obtain cont s' c' where r: "stream_step E (s, c) = (cont, s', c')"
    by (cases "stream_step E (s, c)") auto
  have "\<not> jni_exception s'"
    using stream_step_jni [OF Suc.prems, of E c] r by simp
  then show ?case using r Suc.IH [of s' c'] by (cases cont) simp_all
qed

lemma nativeGenerateStream_log:
  assumes "0 < g_batch_size s" and "nativeGenerateStream E p mt s = Some (Inr s')"
  shows "\<exists>evs. calls s' = calls s @ evs \<and> (\<forall>ch\<in>set (chunks_of evs). is_valid_utf8 ch) \<and>
           stops_at cancelled evs \<and> stops_at decode_failed evs \<and>
           (has_onToken E \<and> \<not> jni_exception s \<longrightarrow> \<not> jni_exception s')"
proof (cases "\<not> g_model s \<or> \<not> g_context s")
  case True
  then have "s' = s" using assms(2) by (simp add: nativeGenerateStream_def)
  then show ?thesis by simp
next
  case loaded: False
  let ?s1 = "reset_gen_state (reset_chat_state True s)"
  let ?tm = "common_chat_templates_was_explicit E"
  obtain tokens where tr: "truncate_prompt (g_context_size ?s1) mt (common_tokenize E p ?tm ?tm) = Inr tokens"
    using assms(2) loaded
    by (cases "truncate_prompt (g_context_size ?s1) mt (common_tokenize E p ?tm ?tm)")
      (simp_all add: nativeGenerateStream_def Let_def)
  have "0 < g_batch_size ?s1" using assms(1) by (simp add: reset_fields)
  then obtain rc s2 evs1 where
    run: "decode_loop E tokens 0 True (int 0) ?s1 = Some (rc, s2)" and
    log: "calls s2 = calls ?s1 @ evs1" and
    obs: "chunks_of evs1 = []" "filter cancelled evs1 = []" "stops_at decode_failed evs1"
      "rc = 0 \<longrightarrow> filter decode_failed evs1 = []" and
    jni: "jni_exception s2 = jni_exception ?s1"
    using decode_loop_frame [of ?s1 E tokens 0 True 0] by blast
  have c1: "calls s2 = calls s @ (Memory_clear # evs1)"
    using log loaded by (simp add: reset_fields)
  have db: "decode_batched E tokens 0 True ?s1 = Some (rc, s2)"
    using run by (simp add: decode_batched_def)
  have pre: "chunks_of (Memory_clear # evs1) = []" "filter cancelled (Memory_clear # evs1) = []"
    "stops_at decode_failed (Memory_clear # evs1)"
    "rc = 0 \<longrightarrow> filter decode_failed (Memory_clear # evs1) = []"
    using obs by (simp_all add: cancelled_def decode_failed_def)
  have res: "s' = (if rc \<noteq> 0 then s2
             else if \<not> has_onToken E
             then s2\<lparr>g_current_pos := int (length tokens), jni_exception := True\<rparr>
             else fst (stream_loop E (nat mt) (s2\<lparr>g_current_pos := int (length tokens)\<rparr>, [])))"
    using assms(2) loaded tr db
    by (auto simp add: nativeGenerateStream_def Let_def split: if_splits)
  show ?thesis
  proof (cases "rc \<noteq> 0 \<or> \<not> has_onToken E")
    case True
    then have "calls s' = calls s @ (Memory_clear # evs1)"
      using res c1 by auto
    moreover have "has_onToken E \<and> \<not> jni_exception s \<longrightarrow> \<not> jni_exception s'"
      using True res jni by (auto simp add: reset_fields)
    ultimately show ?thesis using pre stops_at_none [OF pre(2)] by auto
  next
    case False
    let ?s3 = "s2\<lparr>g_current_pos := int (length tokens)\<rparr>"
    from False res have s': "s' = fst (stream_loop E (nat mt) (?s3, []))" by simp
    obtain evs2 where evs2: "calls s' = calls ?s3 @ evs2"
      "\<forall>ch\<in>set (chunks_of evs2). is_valid_utf8 ch"
      "stops_at cancelled evs2" "stops_at decode_failed evs2"
      using stream_loop_log [of E "nat mt" ?s3 "[]"] s' by auto
    have "calls s' = calls s @ ((Memory_clear # evs1) @ evs2)"
      using evs2(1) c1 by simp
    moreover have "\<forall>ch\<in>set (chunks_of ((Memory_clear # evs1) @ evs2)). is_valid_utf8 ch"
      using evs2(2) pre(1) by (simp only: chunks_of_append) simp
    moreover have "stops_at cancelled ((Memory_clear # evs1) @ evs2)"
      using evs2(3) pre(2) by (simp only: stops_at_append)
    moreover have "stops_at decode_failed ((Memory_clear # evs1) @ evs2)"
    proof -
      have "filter decode_failed (Memory_clear # evs1) = []" using pre(4) False by blast
      then show ?thesis using evs2(4) by (simp only: stops_at_append)
    qed
    moreover have "\<not> jni_exception s \<longrightarrow> \<not> jni_exception s'"
      using stream_loop_jni [of ?s3 E "nat mt" "[]"] jni s' by (simp add: reset_fields)
    ultimately show ?thesis by blast
  qed
qed




section \<open>Cancellation by the stream consumer\<close>

text \<open>
  C7. If the consumer throws during the delivery of a chunk, the streaming loop ends
  with the session as it was at that moment, the pending exception cleared: the token
  just sampled is not submitted, the cursor is not advanced, and no later iteration
  runs, however many tokens remain in the budget. In every run of
  \<open>nativeGenerateStream\<close> that returns, a delivery that threw is the last external
  call of the run, and no exception is pending at the return.
\<close>

theorem stream_cancellation_stops:
  "(let s1 = (if g_current_pos s \<ge> g_context_size s - 4 then shift_context s else s);
        tok = common_sampler_sample E (calls s1);
        buf = cached @ common_token_to_piece E tok
    in \<not> llama_vocab_is_eog E tok \<and> is_valid_utf8 buf \<and>
       onToken_throws E (calls s1 @ [Sampler_sample tok]) (c_str buf) \<longrightarrow>
       stream_loop E (Suc k) (s, cached) =
         (s1\<lparr>calls := calls s1 @ [Sampler_sample tok, On_token (c_str buf) True],
             jni_exception := False\<rparr>, [])) \<and>
   (0 < g_batch_size s0 \<and> nativeGenerateStream E prompt maxTokens s0 = Some (Inr s') \<longrightarrow>
      stops_at cancelled (drop (length (calls s0)) (calls s')) \<and>
      (has_onToken E \<and> \<not> jni_exception s0 \<longrightarrow> \<not> jni_exception s'))"
proof -
  define s1 where "s1 = (if g_current_pos s \<ge> g_context_size s - 4 then shift_context s else s)"
  define tok where "tok = common_sampler_sample E (calls s1)"
  define buf where "buf = cached @ common_token_to_piece E tok"
  have step: "stream_loop E (Suc k) (s, cached) =
         (s1\<lparr>calls := calls s1 @ [Sampler_sample tok, On_token (c_str buf) True],
             jni_exception := False\<rparr>, [])"
    if "\<not> llama_vocab_is_eog E tok" "is_valid_utf8 buf"
      "onToken_throws E (calls s1 @ [Sampler_sample tok]) (c_str buf)"
    using stream_step_cancel [OF s1_def tok_def buf_def that] by simp
  have run: "stops_at cancelled (drop (length (calls s0)) (calls s')) \<and>
      (has_onToken E \<and> \<not> jni_exception s0 \<longrightarrow> \<not> jni_exception s')"
    if "0 < g_batch_size s0" "nativeGenerateStream E prompt maxTokens s0 = Some (Inr s')"
    using nativeGenerateStream_log [OF that] by auto
  show ?thesis
    using step run unfolding Let_def s1_def tok_def buf_def by blast
qed

text \<open>
  A consumer that throws at once ends a loop of 5 iterations in its first; and Scenario
  D of the specification: the consumer throws at the second chunk, and the run ends
  there, after one generated token was submitted.
\<close>

theorem stream_cancellation_stops_witness:
  "\<not> llama_vocab_is_eog env_throw 128 \<and> is_valid_utf8 [65] \<and>
   onToken_throws env_throw [Sampler_sample 128] [65] \<and>
   stream_loop env_throw 5 (session16\<lparr>g_current_pos := 3\<rparr>, []) =
     (session16\<lparr>g_current_pos := 3, calls := [Sampler_sample 128, On_token [65] True]\<rparr>, []) \<and>
   0 < g_batch_size session16 \<and>
   nativeGenerateStream env_cancel ''abc'' 5 session16 =
     Some (Inr (session16\<lparr>g_current_pos := 4,
        g_batch := [\<lparr>token = 128, pos = 3, seq_id = [0], logits = True\<rparr>],
        kv := [(0, 97), (1, 98), (2, 99), (3, 128)],
        calls := [Memory_clear,
                  Decode [\<lparr>token = 97, pos = 0, seq_id = [0], logits = False\<rparr>,
                          \<lparr>token = 98, pos = 1, seq_id = [0], logits = False\<rparr>,
                          \<lparr>token = 99, pos = 2, seq_id = [0], logits = True\<rparr>] True,
                  Sampler_sample 128, On_token [65] False,
                  Decode [\<lparr>token = 128, pos = 3, seq_id = [0], logits = True\<rparr>] True,
                  Sampler_sample 129, On_token [66] True]\<rparr>))"
proof -
  let ?x = "session16\<lparr>g_current_pos := 4,
        g_batch := [\<lparr>token = 128, pos = 3, seq_id = [0], logits = True\<rparr>],
        kv := [(0, 97), (1, 98), (2, 99), (3, 128)],
        calls := [Memory_clear,
                  Decode [\<lparr>token = 97, pos = 0, seq_id = [0], logits = False\<rparr>,
                          \<lparr>token = 98, pos = 1, seq_id = [0], logits = False\<rparr>,
                          \<lparr>token = 99, pos = 2, seq_id = [0], logits = True\<rparr>] True,
                  Sampler_sample 128, On_token [65] False,
                  Decode [\<lparr>token = 128, pos = 3, seq_id = [0], logits = True\<rparr>] True,
                  Sampler_sample 129, On_token [66] True]\<rparr>"
  have ev: "nativeGenerateStream env_cancel ''abc'' 5 session16 = Some (Inr ?x)"
    by code_simp
  have h: "0 < g_batch_size session16"
    by code_simp
  have run: "stops_at cancelled (drop (length (calls session16)) (calls ?x))"
    using conjunct2 [OF stream_cancellation_stops [where ?s0.0 = session16 and E = env_cancel
          and prompt = "''abc''" and maxTokens = 5 and s' = ?x]] h ev
    by blast
  have step: "stream_loop env_throw 5 (session16\<lparr>g_current_pos := 3\<rparr>, []) =
     (session16\<lparr>g_current_pos := 3, calls := [Sampler_sample 128, On_token [65] True]\<rparr>, [])"
    using conjunct1 [OF stream_cancellation_stops [where s = "session16\<lparr>g_current_pos := 3\<rparr>"
          and E = env_throw and cached = "[]" and k = 4]]
    by code_simp
  have hyps: "\<not> llama_vocab_is_eog env_throw 128 \<and> is_valid_utf8 [65] \<and>
      onToken_throws env_throw [Sampler_sample 128] [65]"
    by code_simp
  show ?thesis using hyps step h ev run by blast
qed

section \<open>The stream buffer\<close>



section \<open>Validity of the surfaced text\<close>















section \<open>The call log of the synchronous generation loop\<close>






section \<open>Decode failure in a synchronous request\<close>







section \<open>Requests without a model\<close>

text \<open>
  C9, as amended. Without a model (or without a context), \<open>nativeGenerate\<close> returns the
  string \<open>[Error: Model not loaded]\<close> and \<open>nativeGenerateStream\<close> returns without
  delivering anything, both leaving the session as it was; without a context,
  \<open>nativeTokenize\<close> returns the empty token array. \<open>nativeTokenize\<close> never changes the
  session, loaded or not.
\<close>

theorem model_unavailable:
  "(\<not> g_model s \<or> \<not> g_context s \<longrightarrow>
      nativeGenerate E prompt maxTokens s = Some (Inr (error_not_loaded, s)) \<and>
      nativeGenerateStream E prompt maxTokens s = Some (Inr s)) \<and>
   (\<not> g_context s \<longrightarrow> nativeTokenize E input s = ([], s)) \<and>
   snd (nativeTokenize E input s) = s \<and>
   error_not_loaded = bytes_of ''[Error: Model not loaded]''"
  by (simp add: nativeGenerate_def nativeGenerateStream_def nativeTokenize_def
      error_not_loaded_def)

text \<open>The three entry points on a session without a model, and a tokenization with one.\<close>

theorem model_unavailable_witness:
  "\<not> g_model session_unloaded \<and> \<not> g_context session_unloaded \<and>
   nativeGenerate env0 ''abc'' 3 session_unloaded =
     Some (Inr (bytes_of ''[Error: Model not loaded]'', session_unloaded)) \<and>
   nativeGenerateStream env0 ''abc'' 3 session_unloaded = Some (Inr session_unloaded) \<and>
   nativeTokenize env0 ''abc'' session_unloaded = ([], session_unloaded) \<and>
   nativeTokenize env0 ''abc'' session16 = ([97, 98, 99], session16)"
proof -
  note t = model_unavailable [where s = session_unloaded and E = env0 and prompt = "''abc''"
      and maxTokens = 3 and input = "''abc''"]
  note u = model_unavailable [where s = session16 and E = env0 and input = "''abc''"]
  have h: "\<not> g_model session_unloaded \<and> \<not> g_context session_unloaded"
    by (simp add: session_unloaded_def)
  have a: "nativeGenerate env0 ''abc'' 3 session_unloaded =
       Some (Inr (bytes_of ''[Error: Model not loaded]'', session_unloaded)) \<and>
     nativeGenerateStream env0 ''abc'' 3 session_unloaded = Some (Inr session_unloaded) \<and>
     nativeTokenize env0 ''abc'' session_unloaded = ([], session_unloaded)"
    using t h by simp
  have "fst (nativeTokenize env0 ''abc'' session16) = [97, 98, 99]"
    by code_simp
  moreover have "snd (nativeTokenize env0 ''abc'' session16) = session16"
    using u by blast
  ultimately have b: "nativeTokenize env0 ''abc'' session16 = ([97, 98, 99], session16)"
    by (simp add: prod_eq_iff)
  show ?thesis using h a b by blast
qed

text \<open>
  The claim as stated fails for two of the three entry points: without a model the
  tokenization of any text is the empty array, the same value that the tokenization of
  the empty text gives with a model, and the streaming call returns normally with no
  delivery and no pending exception. Neither surfaces an error.
\<close>

theorem model_unavailable_counterexample:
  "nativeTokenize env0 ''abc'' session_unloaded = nativeTokenize env0 '''' session_unloaded \<and>
   fst (nativeTokenize env0 ''abc'' session_unloaded) = fst (nativeTokenize env0 '''' session16) \<and>
   fst (nativeTokenize env0 ''abc'' session_unloaded) = [] \<and>
   nativeGenerateStream env0 ''abc'' 3 session_unloaded = Some (Inr session_unloaded) \<and>
   calls session_unloaded = [] \<and> jni_exception session_unloaded = False"
  by code_simp

end
